theory Spec2Isabelle
  imports Main "HOL-Library.AList" "HOL-Library.Char_ord" "HOL-Library.List_Lexorder"
begin

section \<open>Data model of \<^verbatim>\<open>vfs.py\<close>\<close>

text \<open>
  The engine is the class \<^verbatim>\<open>VirtualFileSystem\<close>. Its dictionaries are insertion-ordered
  Python dicts and are modelled as association lists (lookup \<open>map_of\<close>, store
  \<open>AList.update\<close>, removal \<open>AList.delete\<close>). The \<^verbatim>\<open>FSItem\<close> objects are shared by
  reference between \<^verbatim>\<open>filesystem\<close>, \<^verbatim>\<open>dentry_cache\<close> and \<^verbatim>\<open>inode_cache\<close> and are mutated in
  place, so they live in an explicit object store \<open>objects\<close> (a list that only grows; a
  reference is an index into it) and the three dictionaries hold references.
  Python strings are modelled as \<open>string\<close>, one \<open>char\<close> per code point (so the model
  covers the strings whose code points are below 256), and Python integers as \<open>int\<close>.
  Every reading of \<^verbatim>\<open>datetime.now()\<close> is an input of the operation that performs it.
  An exception is a result value, returned together with the state the object is left in.
  Two field names are suffixed because they clash: \<^verbatim>\<open>FSItem.size\<close> is \<open>size_f\<close> and
  \<^verbatim>\<open>Operation.filesystem\<close> is \<open>op_filesystem\<close>.
\<close>

datatype FileSystemType = EXT4 | NTFS | FAT32 | BTRFS | XFS | NFS

fun fs_value :: "FileSystemType \<Rightarrow> string" where
  "fs_value EXT4 = ''ext4''"
| "fs_value NTFS = ''ntfs''"
| "fs_value FAT32 = ''fat32''"
| "fs_value BTRFS = ''btrfs''"
| "fs_value XFS = ''xfs''"
| "fs_value NFS = ''nfs''"

datatype ItemType = FILE | DIRECTORY

fun item_value :: "ItemType \<Rightarrow> string" where
  "item_value FILE = ''file''"
| "item_value DIRECTORY = ''dir''"

record FSItem =
  name :: string
  item_type :: ItemType
  inode :: int
  created :: string
  children :: "string list"
  content :: string
  size_f :: int

record Operation =
  timestamp :: string
  operation :: string
  path :: string
  op_filesystem :: string
  success :: bool

record Statistics =
  total_files :: int
  total_dirs :: int
  operations :: int
  cache_hits :: int
  cache_misses :: int

type_synonym ref = nat

record vfs =
  fs_type :: FileSystemType
  objects :: "FSItem list"
  filesystem :: "(string \<times> ref) list"
  current_path :: string
  inode_counter :: int
  stats :: Statistics
  operation_log :: "Operation list"
  dentry_cache :: "(string \<times> ref) list"
  inode_cache :: "(int \<times> ref) list"

text \<open>The two formatted clock readings an operation may take:
  \<^verbatim>\<open>datetime.now().isoformat()\<close> and \<^verbatim>\<open>datetime.now().strftime("%H:%M:%S.%f")\<close>.\<close>

record clock =
  now_isoformat :: string
  now_strftime :: string

text \<open>The clock readings of the constructor: the \<^verbatim>\<open>isoformat\<close> reading of the k-th
  item created, and the two \<^verbatim>\<open>strftime('%Y-%m-%d %H:%M:%S')\<close> readings of the seeded log file.\<close>

record boot_clock =
  iso_at :: "nat \<Rightarrow> string"
  log_at1 :: string
  log_at2 :: string

datatype py_error = KeyError | ValueError

datatype command =
    Create string ItemType
  | Delete string
  | ChangeDirectory string
  | ReadFile string
  | WriteFile string string
  | ListCurrentDirectory
  | ClearCache

datatype result =
    Status bool string
  | Node "ref option"
  | Items "ref list"
  | Nothing
  | Raised py_error

section \<open>Helpers\<close>

definition has_key :: "('k \<times> 'v) list \<Rightarrow> 'k \<Rightarrow> bool" where
  "has_key d k = (map_of d k \<noteq> None)"

text \<open>\<^verbatim>\<open>f"{self.current_path}/{name}" if self.current_path != "/" else f"/{name}"\<close>\<close>

definition child_path :: "string \<Rightarrow> string \<Rightarrow> string" where
  "child_path cur nm = (if cur \<noteq> ''/'' then cur @ ''/'' @ nm else ''/'' @ nm)"

text \<open>\<^verbatim>\<open>s.split(c)\<close> and \<^verbatim>\<open>c.join(parts)\<close>\<close>

fun split_on :: "char \<Rightarrow> string \<Rightarrow> string list" where
  "split_on c [] = [[]]"
| "split_on c (x # xs) =
     (if x = c then [] # split_on c xs
      else (case split_on c xs of
              [] \<Rightarrow> [[x]]
            | w # ws \<Rightarrow> (x # w) # ws))"

fun join_on :: "string \<Rightarrow> string list \<Rightarrow> string" where
  "join_on sep [] = []"
| "join_on sep [w] = w"
| "join_on sep (w # v # ws) = w @ sep @ join_on sep (v # ws)"

text \<open>\<^verbatim>\<open>'/'.join(parts[:-1]) or '/'\<close> with \<^verbatim>\<open>parts = path.split('/')\<close>\<close>

definition parent_path :: "string \<Rightarrow> string" where
  "parent_path p =
     (let parts = split_on CHR ''/'' p;
          j = join_on ''/'' (butlast parts)
      in if j = [] then ''/'' else j)"

definition get_obj :: "vfs \<Rightarrow> ref \<Rightarrow> FSItem" where
  "get_obj s r = objects s ! r"

definition set_obj :: "ref \<Rightarrow> FSItem \<Rightarrow> vfs \<Rightarrow> vfs" where
  "set_obj r it s = s\<lparr>objects := (objects s)[r := it]\<rparr>"

section \<open>The engine\<close>

definition count_type :: "ItemType \<Rightarrow> vfs \<Rightarrow> int" where
  "count_type ty s =
     int (length (filter (\<lambda>r. item_type (get_obj s r) = ty) (map snd (filesystem s))))"

definition update_stats :: "vfs \<Rightarrow> vfs" where
  "update_stats s =
     s\<lparr>stats := (stats s)\<lparr>total_files := count_type FILE s,
                           total_dirs := count_type DIRECTORY s\<rparr>\<rparr>"

definition log_operation :: "string \<Rightarrow> string \<Rightarrow> string \<Rightarrow> bool \<Rightarrow> vfs \<Rightarrow> vfs" where
  "log_operation now opn p ok s =
     s\<lparr>operation_log := operation_log s @
          [\<lparr>timestamp = take (length now - 3) now, operation = opn, path = p,
            op_filesystem = fs_value (fs_type s), success = ok\<rparr>],
       stats := (stats s)\<lparr>operations := operations (stats s) + 1\<rparr>\<rparr>"

definition create_item_internal ::
    "string \<Rightarrow> string \<Rightarrow> string \<Rightarrow> ItemType \<Rightarrow> vfs \<Rightarrow> ref \<times> vfs" where
  "create_item_internal now parent nm ty s =
     (let s1 = s\<lparr>inode_counter := inode_counter s + 1\<rparr>;
          item = \<lparr>name = nm, item_type = ty, inode = inode_counter s1, created = now,
                  children = [], content = [], size_f = 0\<rparr>;
          full_path = (if parent = ''/''
                       then (if nm \<noteq> ''root'' then ''/'' @ nm else ''/'')
                       else parent @ ''/'' @ nm);
          r = length (objects s1);
          s2 = s1\<lparr>objects := objects s1 @ [item],
                  filesystem := AList.update full_path r (filesystem s1)\<rparr>
      in (case map_of (filesystem s2) parent of
            None \<Rightarrow> (r, s2)
          | Some p \<Rightarrow>
              if nm \<noteq> ''root''
              then (r, set_obj p ((get_obj s2 p)\<lparr>children := children (get_obj s2 p) @ [nm]\<rparr>) s2)
              else (r, s2)))"

definition set_content :: "ref \<Rightarrow> string \<Rightarrow> vfs \<Rightarrow> vfs" where
  "set_content r c s =
     (let s1 = set_obj r ((get_obj s r)\<lparr>content := c\<rparr>) s
      in set_obj r ((get_obj s1 r)\<lparr>size_f := int (length (content (get_obj s1 r)))\<rparr>) s1)"

definition readme_text :: string where
  "readme_text =
     ''Welcome to VFS Simulator'' @ [CHR 0x0A] @
     ''This demonstrates Virtual File System operations with modern GUI.'' @ [CHR 0x0A, CHR 0x0A] @
     ''Features:'' @ [CHR 0x0A] @
     ''- Multi-file system support'' @ [CHR 0x0A] @
     ''- Dentry and Inode caching'' @ [CHR 0x0A] @
     ''- System call logging'' @ [CHR 0x0A] @
     ''- Performance statistics''"

definition config_text :: "FileSystemType \<Rightarrow> string" where
  "config_text ty =
     ''filesystem='' @ fs_value ty @ [CHR 0x0A] @
     ''cache_enabled=true'' @ [CHR 0x0A] @
     ''version=2.0'' @ [CHR 0x0A] @
     ''architecture=x64''"

definition log_text :: "string \<Rightarrow> string \<Rightarrow> FileSystemType \<Rightarrow> string" where
  "log_text t1 t2 ty =
     ''['' @ t1 @ ''] System initialized'' @ [CHR 0x0A] @
     ''['' @ t2 @ ''] File system mounted: '' @ fs_value ty"

definition initialize_filesystem :: "boot_clock \<Rightarrow> vfs \<Rightarrow> vfs" where
  "initialize_filesystem bc s0 =
     (let s = snd (create_item_internal (iso_at bc 0) ''/'' ''root'' DIRECTORY s0);
          s = snd (create_item_internal (iso_at bc 1) ''/'' ''home'' DIRECTORY s);
          s = snd (create_item_internal (iso_at bc 2) ''/home'' ''user'' DIRECTORY s);
          s = snd (create_item_internal (iso_at bc 3) ''/home/user'' ''documents'' DIRECTORY s);
          s = snd (create_item_internal (iso_at bc 4) ''/home/user'' ''downloads'' DIRECTORY s);
          (readme, s) = create_item_internal (iso_at bc 5) ''/home/user'' ''readme.txt'' FILE s;
          s = set_content readme readme_text s;
          s = snd (create_item_internal (iso_at bc 6) ''/'' ''etc'' DIRECTORY s);
          (config, s) = create_item_internal (iso_at bc 7) ''/etc'' ''config.txt'' FILE s;
          s = set_content config (config_text (fs_type s)) s;
          s = snd (create_item_internal (iso_at bc 8) ''/'' ''var'' DIRECTORY s);
          s = snd (create_item_internal (iso_at bc 9) ''/var'' ''log'' DIRECTORY s);
          (lg, s) = create_item_internal (iso_at bc 10) ''/var/log'' ''system.log'' FILE s;
          s = set_content lg (log_text (log_at1 bc) (log_at2 bc) (fs_type s)) s
      in update_stats s)"

definition VirtualFileSystem :: "boot_clock \<Rightarrow> FileSystemType \<Rightarrow> vfs" where
  "VirtualFileSystem bc ty =
     initialize_filesystem bc
       \<lparr>fs_type = ty, objects = [], filesystem = [], current_path = ''/'',
        inode_counter = 0,
        stats = \<lparr>total_files = 0, total_dirs = 0, operations = 0,
                 cache_hits = 0, cache_misses = 0\<rparr>,
        operation_log = [], dentry_cache = [], inode_cache = []\<rparr>"

definition create :: "clock \<Rightarrow> string \<Rightarrow> ItemType \<Rightarrow> vfs \<Rightarrow> (py_error + bool \<times> string) \<times> vfs" where
  "create clk nm ty s =
     (if nm = [] \<or> CHR ''/'' \<in> set nm then (Inr (False, ''Invalid name!''), s)
      else
        let new_path = child_path (current_path s) nm
        in if has_key (filesystem s) new_path
           then (Inr (False, ''Item already exists!''),
                 log_operation (now_strftime clk) ''CREATE'' new_path False s)
           else
             let s1 = s\<lparr>inode_counter := inode_counter s + 1\<rparr>;
                 item = \<lparr>name = nm, item_type = ty, inode = inode_counter s1,
                         created = now_isoformat clk,
                         children = [], content = [], size_f = 0\<rparr>;
                 r = length (objects s1);
                 s2 = s1\<lparr>objects := objects s1 @ [item],
                         filesystem := AList.update new_path r (filesystem s1)\<rparr>
             in (case map_of (filesystem s2) (current_path s2) of
                   None \<Rightarrow> (Inl KeyError, s2)
                 | Some p \<Rightarrow>
                     let s3 = set_obj p ((get_obj s2 p)\<lparr>children := children (get_obj s2 p) @ [nm]\<rparr>) s2;
                         s4 = update_stats s3;
                         s5 = log_operation (now_strftime clk) ''CREATE'' new_path True s4
                     in (Inr (True, ''Created '' @ item_value ty @ '': '' @ nm), s5)))"

definition delete :: "clock \<Rightarrow> string \<Rightarrow> vfs \<Rightarrow> (py_error + bool \<times> string) \<times> vfs" where
  "delete clk nm s =
     (let item_path = child_path (current_path s) nm
      in case map_of (filesystem s) item_path of
           None \<Rightarrow> (Inr (False, ''Item not found!''),
                    log_operation (now_strftime clk) ''DELETE'' item_path False s)
         | Some r \<Rightarrow>
             if item_type (get_obj s r) = DIRECTORY \<and> children (get_obj s r) \<noteq> []
             then (Inr (False, ''Cannot delete non-empty directory!''),
                   log_operation (now_strftime clk) ''DELETE'' item_path False s)
             else
               let s1 = s\<lparr>filesystem := AList.delete item_path (filesystem s)\<rparr>
               in (case map_of (filesystem s1) (current_path s1) of
                     None \<Rightarrow> (Inl KeyError, s1)
                   | Some p \<Rightarrow>
                       if nm \<notin> set (children (get_obj s1 p)) then (Inl ValueError, s1)
                       else
                         let s2 = set_obj p ((get_obj s1 p)\<lparr>children := remove1 nm (children (get_obj s1 p))\<rparr>) s1;
                             s3 = (if has_key (dentry_cache s2) item_path
                                   then s2\<lparr>dentry_cache := AList.delete item_path (dentry_cache s2)\<rparr>
                                   else s2);
                             s4 = (if has_key (inode_cache s3) (inode (get_obj s3 r))
                                   then s3\<lparr>inode_cache := AList.delete (inode (get_obj s3 r)) (inode_cache s3)\<rparr>
                                   else s3);
                             s5 = update_stats s4;
                             s6 = log_operation (now_strftime clk) ''DELETE'' item_path True s5
                         in (Inr (True, ''Deleted: '' @ nm), s6)))"

definition change_directory :: "clock \<Rightarrow> string \<Rightarrow> vfs \<Rightarrow> (bool \<times> string) \<times> vfs" where
  "change_directory clk nm s =
     (if nm = ''..''
      then (if current_path s \<noteq> ''/''
            then let s1 = s\<lparr>current_path := parent_path (current_path s)\<rparr>;
                     s2 = log_operation (now_strftime clk) ''CHDIR'' (current_path s1) True s1
                 in ((True, ''Changed to '' @ current_path s2), s2)
            else ((False, ''Already at root''), s))
      else
        let new_path = child_path (current_path s) nm
        in case map_of (filesystem s) new_path of
             None \<Rightarrow> ((False, ''Directory not found!''), s)
           | Some r \<Rightarrow>
               if item_type (get_obj s r) \<noteq> DIRECTORY then ((False, ''Not a directory!''), s)
               else
                 let s1 = (if has_key (dentry_cache s) new_path
                           then s\<lparr>stats := (stats s)\<lparr>cache_hits := cache_hits (stats s) + 1\<rparr>\<rparr>
                           else s\<lparr>dentry_cache := AList.update new_path r (dentry_cache s),
                                  stats := (stats s)\<lparr>cache_misses := cache_misses (stats s) + 1\<rparr>\<rparr>);
                     s2 = s1\<lparr>current_path := new_path\<rparr>;
                     s3 = log_operation (now_strftime clk) ''CHDIR'' new_path True s2
                 in ((True, ''Changed to '' @ new_path), s3))"

definition read_file :: "clock \<Rightarrow> string \<Rightarrow> vfs \<Rightarrow> ref option \<times> vfs" where
  "read_file clk nm s =
     (let file_path = child_path (current_path s) nm
      in case map_of (filesystem s) file_path of
           None \<Rightarrow> (None, s)
         | Some r \<Rightarrow>
             if item_type (get_obj s r) \<noteq> FILE then (None, s)
             else
               let s1 = (if has_key (inode_cache s) (inode (get_obj s r))
                         then s\<lparr>stats := (stats s)\<lparr>cache_hits := cache_hits (stats s) + 1\<rparr>\<rparr>
                         else s\<lparr>inode_cache := AList.update (inode (get_obj s r)) r (inode_cache s),
                                stats := (stats s)\<lparr>cache_misses := cache_misses (stats s) + 1\<rparr>\<rparr>);
                   s2 = log_operation (now_strftime clk) ''READ'' file_path True s1
               in (Some r, s2))"

definition write_file :: "clock \<Rightarrow> string \<Rightarrow> string \<Rightarrow> vfs \<Rightarrow> (bool \<times> string) \<times> vfs" where
  "write_file clk nm c s =
     (let file_path = child_path (current_path s) nm
      in case map_of (filesystem s) file_path of
           None \<Rightarrow> ((False, ''File not found!''),
                    log_operation (now_strftime clk) ''WRITE'' file_path False s)
         | Some r \<Rightarrow>
             if item_type (get_obj s r) \<noteq> FILE
             then ((False, ''Not a file!''),
                   log_operation (now_strftime clk) ''WRITE'' file_path False s)
             else
               let s1 = set_obj r ((get_obj s r)\<lparr>content := c\<rparr>) s;
                   s2 = set_obj r ((get_obj s1 r)\<lparr>size_f := int (length c)\<rparr>) s1;
                   s3 = log_operation (now_strftime clk) ''WRITE'' file_path True s2
               in ((True, ''File saved: '' @ nm), s3))"

definition get_current_items :: "clock \<Rightarrow> vfs \<Rightarrow> ref list \<times> vfs" where
  "get_current_items clk s =
     (case map_of (filesystem s) (current_path s) of
        None \<Rightarrow> ([], s)
      | Some cur \<Rightarrow>
          if item_type (get_obj s cur) \<noteq> DIRECTORY then ([], s)
          else
            let items = List.map_filter
                          (\<lambda>child_name. map_of (filesystem s) (child_path (current_path s) child_name))
                          (sort (children (get_obj s cur)))
            in (items, log_operation (now_strftime clk) ''READDIR'' (current_path s) True s))"

definition clear_cache :: "clock \<Rightarrow> vfs \<Rightarrow> vfs" where
  "clear_cache clk s =
     log_operation (now_strftime clk) ''CACHE_CLEAR'' ''system'' True
       (s\<lparr>dentry_cache := [], inode_cache := []\<rparr>)"

section \<open>The command surface as one step function\<close>

fun lift_status :: "(py_error + bool \<times> string) \<Rightarrow> result" where
  "lift_status (Inl e) = Raised e"
| "lift_status (Inr (ok, msg)) = Status ok msg"

fun step :: "clock \<Rightarrow> command \<Rightarrow> vfs \<Rightarrow> result \<times> vfs" where
  "step clk (Create nm ty) s = (let (r, s') = create clk nm ty s in (lift_status r, s'))"
| "step clk (Delete nm) s = (let (r, s') = delete clk nm s in (lift_status r, s'))"
| "step clk (ChangeDirectory nm) s =
     (let ((ok, msg), s') = change_directory clk nm s in (Status ok msg, s'))"
| "step clk (ReadFile nm) s = (let (r, s') = read_file clk nm s in (Node r, s'))"
| "step clk (WriteFile nm c) s =
     (let ((ok, msg), s') = write_file clk nm c s in (Status ok msg, s'))"
| "step clk ListCurrentDirectory s = (let (rs, s') = get_current_items clk s in (Items rs, s'))"
| "step clk ClearCache s = (Nothing, clear_cache clk s)"

text \<open>Running a sequence of calls; an exception leaves the object as it was when raised,
  and the caller goes on with it.\<close>

fun run :: "(clock \<times> command) list \<Rightarrow> vfs \<Rightarrow> result list \<times> vfs" where
  "run [] s = ([], s)"
| "run ((clk, c) # cs) s =
     (let (r, s1) = step clk c s;
          (rs, s2) = run cs s1
      in (r # rs, s2))"

inductive reachable :: "vfs \<Rightarrow> bool" where
  init: "reachable (VirtualFileSystem bc ty)"
| next_step: "reachable s \<Longrightarrow> reachable (snd (step clk c s))"

section \<open>Notions used by the properties\<close>

text \<open>Two states that agree on everything except the two cache tables and the
  hit and miss counters.\<close>

definition same_but_caches :: "vfs \<Rightarrow> vfs \<Rightarrow> bool" where
  "same_but_caches s t =
     (fs_type s = fs_type t \<and> objects s = objects t \<and> filesystem s = filesystem t \<and>
      current_path s = current_path t \<and> inode_counter s = inode_counter t \<and>
      operation_log s = operation_log t \<and>
      total_files (stats s) = total_files (stats t) \<and>
      total_dirs (stats s) = total_dirs (stats t) \<and>
      operations (stats s) = operations (stats t))"

text \<open>The leaf name of a path: its last \<open>/\<close>-separated segment.\<close>

definition leaf_name :: "string \<Rightarrow> string" where
  "leaf_name p = last (split_on CHR ''/'' p)"

text \<open>The shape every path of a reachable state has: it starts with one \<open>/\<close>, not two.\<close>

definition abs_path :: "string \<Rightarrow> bool" where
  "abs_path p = (case p of
                   [] \<Rightarrow> False
                 | c # q \<Rightarrow> c = CHR ''/'' \<and> (case q of [] \<Rightarrow> True | d # _ \<Rightarrow> d \<noteq> CHR ''/''))"

text \<open>Invariants of the reachable states: the references held by \<open>filesystem\<close> point into
  the object store; the k-th object ever allocated has inode k and the counter is the
  number of objects allocated; all paths have the shape above.\<close>

definition refs_ok :: "vfs \<Rightarrow> bool" where
  "refs_ok s = (\<forall>p r. map_of (filesystem s) p = Some r \<longrightarrow> r < length (objects s))"

definition inodes_ok :: "vfs \<Rightarrow> bool" where
  "inodes_ok s =
     (inode_counter s = int (length (objects s)) \<and>
      map inode (objects s) = map int [1..<Suc (length (objects s))])"

definition paths_ok :: "vfs \<Rightarrow> bool" where
  "paths_ok s =
     (abs_path (current_path s) \<and>
      (\<forall>p r. map_of (filesystem s) p = Some r \<longrightarrow> abs_path p))"

definition cache_ok :: "vfs \<Rightarrow> bool" where
  "cache_ok s = (\<forall>k r. map_of (inode_cache s) k = Some r \<longrightarrow> k \<le> inode_counter s)"

text \<open>The node \<open>r\<close> has not been read yet: no \<open>ReadFile\<close> has returned it since the
  store was constructed, since the \<open>Create\<close> that made it, or since the last
  \<open>ClearCache\<close>, whichever came last.\<close>

inductive unread :: "vfs \<Rightarrow> ref \<Rightarrow> bool" where
  constructed: "r < length (objects (VirtualFileSystem bc ty)) \<Longrightarrow>
                unread (VirtualFileSystem bc ty) r"
| created: "reachable s \<Longrightarrow> fst (create clk nm ty s) = Inr (True, msg) \<Longrightarrow>
            unread (snd (create clk nm ty s)) (length (objects s))"
| cleared: "reachable s \<Longrightarrow> r < length (objects s) \<Longrightarrow> unread (clear_cache clk s) r"
| kept: "unread s r \<Longrightarrow> fst (step clk c s) \<noteq> Node (Some r) \<Longrightarrow>
         unread (snd (step clk c s)) r"

text \<open>Concrete clock readings for the examples.\<close>

definition boot0 :: boot_clock where
  "boot0 = \<lparr>iso_at = (\<lambda>k. ''2024-01-01T00:00:00.000000''),
            log_at1 = ''2024-01-01 00:00:00'', log_at2 = ''2024-01-01 00:00:00''\<rparr>"

definition clock0 :: clock where
  "clock0 = \<lparr>now_isoformat = ''2024-01-01T00:00:01.000000'',
             now_strftime = ''00:00:01.000000''\<rparr>"

text \<open>The seeded state of the examples, and the state after a list of calls made on it.\<close>

definition seed :: vfs where
  "seed = VirtualFileSystem boot0 EXT4"

definition exec :: "command list \<Rightarrow> vfs \<Rightarrow> vfs" where
  "exec cs s = snd (run (map (Pair clock0) cs) s)"

definition in_etc :: vfs where
  "in_etc = exec [ChangeDirectory ''etc''] seed"

definition in_home :: vfs where
  "in_home = exec [ChangeDirectory ''home''] seed"

text \<open>The calls that delete every seeded node below the root, leaf first.\<close>

definition empty_the_root :: "command list" where
  "empty_the_root =
     [ChangeDirectory ''home'', ChangeDirectory ''user'', Delete ''documents'',
      Delete ''downloads'', Delete ''readme.txt'', ChangeDirectory ''..'', Delete ''user'',
      ChangeDirectory ''..'', Delete ''home'', ChangeDirectory ''etc'', Delete ''config.txt'',
      ChangeDirectory ''..'', Delete ''etc'', ChangeDirectory ''var'', ChangeDirectory ''log'',
      Delete ''system.log'', ChangeDirectory ''..'', Delete ''log'', ChangeDirectory ''..'',
      Delete ''var'']"

text \<open>The calls that create a directory named \<open>..\<close> inside a new directory \<open>/a\<close> and
  enter it.\<close>

definition enter_dotdot :: "command list" where
  "enter_dotdot =
     [Create ''a'' DIRECTORY, ChangeDirectory ''a'', Create ''..'' DIRECTORY,
      ChangeDirectory ''..'', ChangeDirectory ''a/..'']"

text \<open>A state with populated cache tables and other hit and miss counters.\<close>

definition warm_caches :: "vfs \<Rightarrow> vfs" where
  "warm_caches s =
     s\<lparr>dentry_cache := [(''/etc'', 6)], inode_cache := [(8, 7)],
       stats := (stats s)\<lparr>cache_hits := 5, cache_misses := 2\<rparr>\<rparr>"

section \<open>The seeded state\<close>

lemma fst_create_item_internal:
  "fst (create_item_internal now p nm ty s) = length (objects s)"
  by (simp add: create_item_internal_def Let_def split: option.split)

lemma fs_type_create_item_internal:
  "fs_type (snd (create_item_internal now p nm ty s)) = fs_type s"
  by (simp add: create_item_internal_def set_obj_def Let_def split: option.split)

lemma length_objects_create_item_internal:
  "length (objects (snd (create_item_internal now p nm ty s))) = Suc (length (objects s))"
  by (simp add: create_item_internal_def set_obj_def Let_def split: option.split)

lemma fs_type_set_content: "fs_type (set_content r c s) = fs_type s"
  by (simp add: set_content_def set_obj_def Let_def)

lemma length_objects_set_content: "length (objects (set_content r c s)) = length (objects s)"
  by (simp add: set_content_def set_obj_def Let_def)

lemma VirtualFileSystem_eq:
  "VirtualFileSystem bc ty =
     \<lparr>fs_type = ty,
      objects =
        [\<lparr>name = ''root'', item_type = DIRECTORY, inode = 1, created = iso_at bc 0,
          children = [''home'', ''etc'', ''var''], content = [], size_f = 0\<rparr>,
         \<lparr>name = ''home'', item_type = DIRECTORY, inode = 2, created = iso_at bc 1,
          children = [''user''], content = [], size_f = 0\<rparr>,
         \<lparr>name = ''user'', item_type = DIRECTORY, inode = 3, created = iso_at bc 2,
          children = [''documents'', ''downloads'', ''readme.txt''], content = [], size_f = 0\<rparr>,
         \<lparr>name = ''documents'', item_type = DIRECTORY, inode = 4, created = iso_at bc 3,
          children = [], content = [], size_f = 0\<rparr>,
         \<lparr>name = ''downloads'', item_type = DIRECTORY, inode = 5, created = iso_at bc 4,
          children = [], content = [], size_f = 0\<rparr>,
         \<lparr>name = ''readme.txt'', item_type = FILE, inode = 6, created = iso_at bc 5,
          children = [], content = readme_text, size_f = int (length readme_text)\<rparr>,
         \<lparr>name = ''etc'', item_type = DIRECTORY, inode = 7, created = iso_at bc 6,
          children = [''config.txt''], content = [], size_f = 0\<rparr>,
         \<lparr>name = ''config.txt'', item_type = FILE, inode = 8, created = iso_at bc 7,
          children = [], content = config_text ty, size_f = int (length (config_text ty))\<rparr>,
         \<lparr>name = ''var'', item_type = DIRECTORY, inode = 9, created = iso_at bc 8,
          children = [''log''], content = [], size_f = 0\<rparr>,
         \<lparr>name = ''log'', item_type = DIRECTORY, inode = 10, created = iso_at bc 9,
          children = [''system.log''], content = [], size_f = 0\<rparr>,
         \<lparr>name = ''system.log'', item_type = FILE, inode = 11, created = iso_at bc 10,
          children = [], content = log_text (log_at1 bc) (log_at2 bc) ty,
          size_f = int (length (log_text (log_at1 bc) (log_at2 bc) ty))\<rparr>],
      filesystem =
        [(''/'', 0), (''/home'', 1), (''/home/user'', 2), (''/home/user/documents'', 3),
         (''/home/user/downloads'', 4), (''/home/user/readme.txt'', 5), (''/etc'', 6),
         (''/etc/config.txt'', 7), (''/var'', 8), (''/var/log'', 9),
         (''/var/log/system.log'', 10)],
      current_path = ''/'', inode_counter = 11,
      stats = \<lparr>total_files = 3, total_dirs = 8, operations = 0,
               cache_hits = 0, cache_misses = 0\<rparr>,
      operation_log = [], dentry_cache = [], inode_cache = []\<rparr>"
  unfolding VirtualFileSystem_def initialize_filesystem_def Let_def split_def
  apply (simp only: fst_create_item_internal fs_type_create_item_internal
      length_objects_create_item_internal fs_type_set_content length_objects_set_content)
  apply (simp add: create_item_internal_def set_content_def set_obj_def get_obj_def
      update_stats_def count_type_def Let_def)
  done

section \<open>Projections of the step function and of runs\<close>

lemma step_Create: "step clk (Create nm ty) s =
    (lift_status (fst (create clk nm ty s)), snd (create clk nm ty s))"
  by (simp add: split_def Let_def)

lemma step_Delete: "step clk (Delete nm) s =
    (lift_status (fst (delete clk nm s)), snd (delete clk nm s))"
  by (simp add: split_def Let_def)

lemma step_ChangeDirectory: "step clk (ChangeDirectory nm) s =
    (Status (fst (fst (change_directory clk nm s))) (snd (fst (change_directory clk nm s))),
     snd (change_directory clk nm s))"
  by (simp add: split_def Let_def)

lemma step_ReadFile: "step clk (ReadFile nm) s =
    (Node (fst (read_file clk nm s)), snd (read_file clk nm s))"
  by (simp add: split_def Let_def)

lemma step_WriteFile: "step clk (WriteFile nm c) s =
    (Status (fst (fst (write_file clk nm c s))) (snd (fst (write_file clk nm c s))),
     snd (write_file clk nm c s))"
  by (simp add: split_def Let_def)

lemma step_ListCurrentDirectory: "step clk ListCurrentDirectory s =
    (Items (fst (get_current_items clk s)), snd (get_current_items clk s))"
  by (simp add: split_def Let_def)

lemmas step_proj = step_Create step_Delete step_ChangeDirectory step_ReadFile step_WriteFile
  step_ListCurrentDirectory

lemma fst_run_Cons:
  "fst (run ((clk, c) # cs) s) = fst (step clk c s) # fst (run cs (snd (step clk c s)))"
  by (simp add: split_def Let_def)

lemma snd_run_Cons:
  "snd (run ((clk, c) # cs) s) = snd (run cs (snd (step clk c s)))"
  by (simp add: split_def Let_def)

section \<open>Cache tables are advisory\<close>

lemma sbc_create:
  assumes "same_but_caches s t"
  shows "fst (create clk nm ty s) = fst (create clk nm ty t) \<and>
         same_but_caches (snd (create clk nm ty s)) (snd (create clk nm ty t))"
  using assms
  by (auto simp: same_but_caches_def create_def Let_def log_operation_def update_stats_def
      set_obj_def get_obj_def count_type_def split: option.splits)

lemma sbc_delete:
  assumes "same_but_caches s t"
  shows "fst (delete clk nm s) = fst (delete clk nm t) \<and>
         same_but_caches (snd (delete clk nm s)) (snd (delete clk nm t))"
  using assms
  by (auto simp: same_but_caches_def delete_def Let_def log_operation_def update_stats_def
      set_obj_def get_obj_def count_type_def split: option.splits)

lemma sbc_change_directory:
  assumes "same_but_caches s t"
  shows "fst (change_directory clk nm s) = fst (change_directory clk nm t) \<and>
         same_but_caches (snd (change_directory clk nm s)) (snd (change_directory clk nm t))"
  using assms
  by (auto simp: same_but_caches_def change_directory_def Let_def log_operation_def
      get_obj_def split: option.splits)

lemma sbc_read_file:
  assumes "same_but_caches s t"
  shows "fst (read_file clk nm s) = fst (read_file clk nm t) \<and>
         same_but_caches (snd (read_file clk nm s)) (snd (read_file clk nm t))"
  using assms
  by (auto simp: same_but_caches_def read_file_def Let_def log_operation_def
      get_obj_def split: option.splits)

lemma sbc_write_file:
  assumes "same_but_caches s t"
  shows "fst (write_file clk nm c s) = fst (write_file clk nm c t) \<and>
         same_but_caches (snd (write_file clk nm c s)) (snd (write_file clk nm c t))"
  using assms
  by (auto simp: same_but_caches_def write_file_def Let_def log_operation_def
      set_obj_def get_obj_def split: option.splits)

lemma sbc_get_current_items:
  assumes "same_but_caches s t"
  shows "fst (get_current_items clk s) = fst (get_current_items clk t) \<and>
         same_but_caches (snd (get_current_items clk s)) (snd (get_current_items clk t))"
  using assms
  by (auto simp: same_but_caches_def get_current_items_def Let_def log_operation_def
      get_obj_def split: option.splits)

lemma sbc_clear_cache:
  assumes "same_but_caches s t"
  shows "same_but_caches (clear_cache clk s) (clear_cache clk t)"
  using assms
  by (auto simp: same_but_caches_def clear_cache_def log_operation_def)

lemma sbc_step:
  assumes "same_but_caches s t"
  shows "fst (step clk c s) = fst (step clk c t) \<and>
         same_but_caches (snd (step clk c s)) (snd (step clk c t))"
proof (cases c)
  case (Create nm ty)
  with sbc_create[OF assms, of clk nm ty] show ?thesis by (simp add: step_proj del: step.simps)
next
  case (Delete nm)
  with sbc_delete[OF assms, of clk nm] show ?thesis by (simp add: step_proj del: step.simps)
next
  case (ChangeDirectory nm)
  with sbc_change_directory[OF assms, of clk nm] show ?thesis by (simp add: step_proj del: step.simps)
next
  case (ReadFile nm)
  with sbc_read_file[OF assms, of clk nm] show ?thesis by (simp add: step_proj del: step.simps)
next
  case (WriteFile nm c)
  with sbc_write_file[OF assms, of clk nm c] show ?thesis by (simp add: step_proj del: step.simps)
next
  case ListCurrentDirectory
  with sbc_get_current_items[OF assms, of clk] show ?thesis by (simp add: step_proj del: step.simps)
next
  case ClearCache
  with sbc_clear_cache[OF assms, of clk] show ?thesis by simp
qed

text \<open>
  Claim C9. The cache tables never influence results. Take two states that agree on
  everything except the contents of \<open>dentry_cache\<close> and \<open>inode_cache\<close> and the counters
  \<open>cache_hits\<close> and \<open>cache_misses\<close> (for instance one with empty caches and one with
  arbitrarily populated caches). Running the same sequence of calls (any of the seven
  operations, so in particular \<open>ReadFile\<close> and \<open>ChangeDirectory\<close>) from both yields the same
  list of returned values (returned node reference, status and message, exception) and two
  final states that again agree on everything (object store, \<open>filesystem\<close>,
  \<open>current_path\<close>, journal, the other counters) except caches and hit/miss counters.
\<close>

theorem caches_never_influence_results:
  assumes "same_but_caches s t"
  shows "fst (run cs s) = fst (run cs t) \<and> same_but_caches (snd (run cs s)) (snd (run cs t))"
  using assms
proof (induction cs arbitrary: s t)
  case Nil
  then show ?case by simp
next
  case (Cons a cs)
  obtain clk c where a: "a = (clk, c)" by (cases a)
  from sbc_step[OF Cons.prems, of clk c]
  have r: "fst (step clk c s) = fst (step clk c t)"
    and n: "same_but_caches (snd (step clk c s)) (snd (step clk c t))" by simp_all
  from Cons.IH[OF n] r show ?case
    by (simp add: a fst_run_Cons snd_run_Cons del: run.simps)
qed

section \<open>Failure frames\<close>

text \<open>
  Claim C5. \<open>ChangeDirectory(name)\<close> for a name other than \<open>".."\<close> fails with the message
  "Directory not found!" (NotFound) when the joined path is absent from the store, and with
  "Not a directory!" (NotADirectory) when it resolves to a file; \<open>".."\<close> at the root fails
  with "Already at root" (AtRoot). In every failure case \<open>current_path\<close>, the namespace
  store (\<open>filesystem\<close> and the objects it refers to) and both cache tables are unchanged.
\<close>

theorem change_directory_failure_frame:
  "(nm \<noteq> ''..'' \<and> map_of (filesystem s) (child_path (current_path s) nm) = None
      \<longrightarrow> fst (change_directory clk nm s) = (False, ''Directory not found!'')) \<and>
   (nm \<noteq> ''..'' \<and> (\<exists>r. map_of (filesystem s) (child_path (current_path s) nm) = Some r \<and>
                         item_type (get_obj s r) = FILE)
      \<longrightarrow> fst (change_directory clk nm s) = (False, ''Not a directory!'')) \<and>
   (nm = ''..'' \<and> current_path s = ''/''
      \<longrightarrow> fst (change_directory clk nm s) = (False, ''Already at root'')) \<and>
   (\<not> fst (fst (change_directory clk nm s))
      \<longrightarrow> current_path (snd (change_directory clk nm s)) = current_path s \<and>
          filesystem (snd (change_directory clk nm s)) = filesystem s \<and>
          objects (snd (change_directory clk nm s)) = objects s \<and>
          dentry_cache (snd (change_directory clk nm s)) = dentry_cache s \<and>
          inode_cache (snd (change_directory clk nm s)) = inode_cache s)"
  by (auto simp: change_directory_def Let_def split: option.splits)

text \<open>
  Claim C8. When the name given to \<open>Delete\<close> resolves to a directory node whose \<open>children\<close>
  list is not empty, the call fails with "Cannot delete non-empty directory!" (NotEmpty)
  and the namespace store is exactly as before: the same paths in \<open>filesystem\<close>, bound to the
  same objects, and every object (with its \<open>children\<close>) unchanged.
\<close>

theorem delete_non_empty_directory:
  assumes "map_of (filesystem s) (child_path (current_path s) nm) = Some r"
    and "item_type (get_obj s r) = DIRECTORY"
    and "children (get_obj s r) \<noteq> []"
  shows "fst (delete clk nm s) = Inr (False, ''Cannot delete non-empty directory!'') \<and>
         filesystem (snd (delete clk nm s)) = filesystem s \<and>
         objects (snd (delete clk nm s)) = objects s"
  using assms by (simp add: delete_def Let_def log_operation_def)

section \<open>Reading and the inode cache\<close>

lemma read_file_existing:
  assumes "map_of (filesystem s) (child_path (current_path s) f) = Some r"
    and "item_type (get_obj s r) = FILE"
  shows "read_file clk f s =
     (Some r,
      log_operation (now_strftime clk) ''READ'' (child_path (current_path s) f) True
        (if has_key (inode_cache s) (inode (get_obj s r))
         then s\<lparr>stats := (stats s)\<lparr>cache_hits := cache_hits (stats s) + 1\<rparr>\<rparr>
         else s\<lparr>inode_cache := AList.update (inode (get_obj s r)) r (inode_cache s),
                stats := (stats s)\<lparr>cache_misses := cache_misses (stats s) + 1\<rparr>\<rparr>))"
  using assms by (simp add: read_file_def Let_def)

lemma read_file_counters_by_cache:
  assumes "map_of (filesystem s) (child_path (current_path s) f) = Some r"
    and "item_type (get_obj s r) = FILE"
  shows "(\<not> has_key (inode_cache s) (inode (get_obj s r)) \<longrightarrow>
            cache_misses (stats (snd (read_file c1 f s))) = cache_misses (stats s) + 1 \<and>
            cache_hits (stats (snd (read_file c1 f s))) = cache_hits (stats s)) \<and>
         fst (read_file c1 f s) = Some r \<and>
         fst (read_file c2 f (snd (read_file c1 f s))) = Some r \<and>
         cache_hits (stats (snd (read_file c2 f (snd (read_file c1 f s))))) =
           cache_hits (stats (snd (read_file c1 f s))) + 1 \<and>
         cache_misses (stats (snd (read_file c2 f (snd (read_file c1 f s))))) =
           cache_misses (stats (snd (read_file c1 f s))) \<and>
         fst (read_file c4 f (clear_cache c3 s)) = Some r \<and>
         cache_misses (stats (snd (read_file c4 f (clear_cache c3 s)))) =
           cache_misses (stats (clear_cache c3 s)) + 1 \<and>
         cache_hits (stats (snd (read_file c4 f (clear_cache c3 s)))) =
           cache_hits (stats (clear_cache c3 s))"
proof -
  let ?s1 = "snd (read_file c1 f s)"
  have s1: "fst (read_file c1 f s) = Some r"
    by (simp add: read_file_existing[OF assms])
  have fs1: "filesystem ?s1 = filesystem s" "current_path ?s1 = current_path s"
    "get_obj ?s1 r = get_obj s r"
    by (simp_all add: read_file_existing[OF assms] log_operation_def get_obj_def)
  have cached: "has_key (inode_cache ?s1) (inode (get_obj s r))"
    by (simp add: read_file_existing[OF assms] log_operation_def has_key_def update_conv')
  have a1: "map_of (filesystem ?s1) (child_path (current_path ?s1) f) = Some r"
    and a2: "item_type (get_obj ?s1 r) = FILE"
    using assms fs1 by simp_all
  let ?s3 = "clear_cache c3 s"
  have fs3: "filesystem ?s3 = filesystem s" "current_path ?s3 = current_path s"
    "get_obj ?s3 r = get_obj s r" "inode_cache ?s3 = []"
    by (simp_all add: clear_cache_def log_operation_def get_obj_def)
  have b1: "map_of (filesystem ?s3) (child_path (current_path ?s3) f) = Some r"
    and b2: "item_type (get_obj ?s3 r) = FILE"
    using assms fs3 by simp_all
  have first: "\<not> has_key (inode_cache s) (inode (get_obj s r)) \<longrightarrow>
            cache_misses (stats ?s1) = cache_misses (stats s) + 1 \<and>
            cache_hits (stats ?s1) = cache_hits (stats s)"
    by (simp add: read_file_existing[OF assms] log_operation_def)
  have second: "fst (read_file c2 f ?s1) = Some r"
    "cache_hits (stats (snd (read_file c2 f ?s1))) = cache_hits (stats ?s1) + 1"
    "cache_misses (stats (snd (read_file c2 f ?s1))) = cache_misses (stats ?s1)"
    using cached by (simp_all add: read_file_existing[OF a1 a2] fs1 log_operation_def)
  have third: "fst (read_file c4 f ?s3) = Some r"
    "cache_misses (stats (snd (read_file c4 f ?s3))) = cache_misses (stats ?s3) + 1"
    "cache_hits (stats (snd (read_file c4 f ?s3))) = cache_hits (stats ?s3)"
    by (simp_all add: read_file_existing[OF b1 b2] fs3 log_operation_def has_key_def)
  from first second third s1 show ?thesis by simp
qed

section \<open>Paths\<close>

lemma split_on_not_Nil [simp]: "split_on c p \<noteq> []"
  by (induction p) (auto split: list.split)

lemma split_on_append: "split_on c (a @ c # l) = split_on c a @ split_on c l"
  by (induction a) (auto split: list.split)

lemma split_on_no_sep: "c \<notin> set l \<Longrightarrow> split_on c l = [l]"
  by (induction l) auto

lemma join_on_split_on: "join_on [c] (split_on c p) = p"
proof (induction p)
  case Nil
  show ?case by simp
next
  case (Cons x p)
  show ?case
  proof (cases "x = c")
    case True
    with Cons show ?thesis by (cases "split_on c p") auto
  next
    case False
    with Cons show ?thesis
      by (cases "split_on c p"; cases "tl (split_on c p)") auto
  qed
qed

lemma last_slash:
  assumes "abs_path p"
  obtains a l where "p = a @ CHR ''/'' # l" "CHR ''/'' \<notin> set l"
proof -
  from assms have "CHR ''/'' \<in> set p" by (cases p) (auto simp: abs_path_def)
  from split_list_last[OF this] that show ?thesis by blast
qed

lemma parent_leaf_decomp:
  assumes "CHR ''/'' \<notin> set l"
  shows "parent_path (a @ CHR ''/'' # l) = (if a = [] then ''/'' else a)"
    and "leaf_name (a @ CHR ''/'' # l) = l"
  using assms
  by (simp_all add: parent_path_def leaf_name_def split_on_append split_on_no_sep
      join_on_split_on[of "CHR ''/''", simplified])

lemma abs_path_prefix:
  assumes "abs_path (a @ CHR ''/'' # l)" "a \<noteq> []"
  shows "abs_path a \<and> a \<noteq> ''/''"
  using assms by (cases a; cases "tl a") (auto simp: abs_path_def)

lemma abs_path_parent_path:
  assumes "abs_path p"
  shows "abs_path (parent_path p)"
proof -
  from assms obtain a l where d: "p = a @ CHR ''/'' # l" "CHR ''/'' \<notin> set l"
    by (rule last_slash)
  have pp: "parent_path (a @ CHR ''/'' # l) = (if a = [] then ''/'' else a)"
    by (rule parent_leaf_decomp[OF d(2)])
  have "abs_path (if a = [] then ''/'' else a)"
    using abs_path_prefix[of a l] assms[unfolded d(1)] by (auto simp: abs_path_def)
  then show ?thesis unfolding d(1) pp .
qed

lemma child_parent_leaf:
  assumes "abs_path p" "p \<noteq> ''/''"
  shows "child_path (parent_path p) (leaf_name p) = p"
proof -
  from assms(1) obtain a l where d: "p = a @ CHR ''/'' # l" "CHR ''/'' \<notin> set l"
    by (rule last_slash)
  have pp: "parent_path (a @ CHR ''/'' # l) = (if a = [] then ''/'' else a)"
    by (rule parent_leaf_decomp[OF d(2)])
  have ln: "leaf_name (a @ CHR ''/'' # l) = l"
    by (rule parent_leaf_decomp[OF d(2)])
  have "child_path (if a = [] then ''/'' else a) l = a @ CHR ''/'' # l"
    using abs_path_prefix[of a l] assms(1)[unfolded d(1)] by (auto simp: child_path_def)
  then show ?thesis unfolding d(1) pp ln .
qed

lemma abs_path_child_path:
  assumes "abs_path cur" "nm \<noteq> []" "CHR ''/'' \<notin> set nm"
  shows "abs_path (child_path cur nm)"
  using assms by (cases cur; cases "tl cur"; cases nm) (auto simp: abs_path_def child_path_def)

section \<open>Invariants of the reachable states\<close>

lemma map_inode_list_update:
  "inode it = inode (xs ! r) \<Longrightarrow> map inode (xs[r := it]) = map inode xs"
  by (cases "r < length xs")
     (simp_all add: map_update list_update_same_conv list_update_beyond not_less)

lemma inode_nth_list_update:
  "inode it = inode (xs ! r) \<Longrightarrow> inode (xs[r := it] ! q) = inode (xs ! q)"
  by (cases "r < length xs"; cases "q = r") (simp_all add: list_update_beyond not_less)

lemma refs_ok_step: "refs_ok s \<Longrightarrow> refs_ok (snd (step clk c s))"
proof (cases c)
  case (Create nm ty)
  assume "refs_ok s"
  then show ?thesis unfolding Create
    by (auto simp: step_proj refs_ok_def create_def Let_def log_operation_def update_stats_def
        set_obj_def update_conv' less_Suc_eq simp del: step.simps
        split: option.splits if_splits)
next
  case (Delete nm)
  assume "refs_ok s"
  then show ?thesis unfolding Delete
    by (auto simp: step_proj refs_ok_def delete_def Let_def log_operation_def update_stats_def
        set_obj_def delete_conv' simp del: step.simps split: option.splits if_splits)
next
  case (ChangeDirectory nm)
  assume "refs_ok s"
  then show ?thesis unfolding ChangeDirectory
    by (auto simp: step_proj refs_ok_def change_directory_def Let_def log_operation_def
        simp del: step.simps split: option.splits if_splits)
next
  case (ReadFile nm)
  assume "refs_ok s"
  then show ?thesis unfolding ReadFile
    by (auto simp: step_proj refs_ok_def read_file_def Let_def log_operation_def
        simp del: step.simps split: option.splits if_splits)
next
  case (WriteFile nm c)
  assume "refs_ok s"
  then show ?thesis unfolding WriteFile
    by (auto simp: step_proj refs_ok_def write_file_def Let_def log_operation_def set_obj_def
        simp del: step.simps split: option.splits if_splits)
next
  case ListCurrentDirectory
  assume "refs_ok s"
  then show ?thesis unfolding ListCurrentDirectory
    by (auto simp: step_proj refs_ok_def get_current_items_def Let_def log_operation_def
        simp del: step.simps split: option.splits if_splits)
next
  case ClearCache
  assume "refs_ok s"
  then show ?thesis unfolding ClearCache
    by (auto simp: refs_ok_def clear_cache_def log_operation_def)
qed

lemma inodes_ok_step: "inodes_ok s \<Longrightarrow> inodes_ok (snd (step clk c s))"
proof (cases c)
  case (Create nm ty)
  assume "inodes_ok s"
  then show ?thesis unfolding Create
    by (auto simp: step_proj inodes_ok_def create_def Let_def log_operation_def update_stats_def
        set_obj_def get_obj_def map_inode_list_update inode_nth_list_update simp del: step.simps
        split: option.splits if_splits)
next
  case (Delete nm)
  assume "inodes_ok s"
  then show ?thesis unfolding Delete
    by (auto simp: step_proj inodes_ok_def delete_def Let_def log_operation_def update_stats_def
        set_obj_def get_obj_def map_inode_list_update inode_nth_list_update simp del: step.simps
        split: option.splits if_splits)
next
  case (ChangeDirectory nm)
  assume "inodes_ok s"
  then show ?thesis unfolding ChangeDirectory
    by (auto simp: step_proj inodes_ok_def change_directory_def Let_def log_operation_def
        simp del: step.simps split: option.splits if_splits)
next
  case (ReadFile nm)
  assume "inodes_ok s"
  then show ?thesis unfolding ReadFile
    by (auto simp: step_proj inodes_ok_def read_file_def Let_def log_operation_def
        simp del: step.simps split: option.splits if_splits)
next
  case (WriteFile nm c)
  assume "inodes_ok s"
  then show ?thesis unfolding WriteFile
    by (auto simp: step_proj inodes_ok_def write_file_def Let_def log_operation_def set_obj_def
        get_obj_def map_inode_list_update inode_nth_list_update simp del: step.simps split: option.splits if_splits)
next
  case ListCurrentDirectory
  assume "inodes_ok s"
  then show ?thesis unfolding ListCurrentDirectory
    by (auto simp: step_proj inodes_ok_def get_current_items_def Let_def log_operation_def
        simp del: step.simps split: option.splits if_splits)
next
  case ClearCache
  assume "inodes_ok s"
  then show ?thesis unfolding ClearCache
    by (auto simp: inodes_ok_def clear_cache_def log_operation_def)
qed

lemma paths_ok_step: "paths_ok s \<Longrightarrow> paths_ok (snd (step clk c s))"
proof (cases c)
  case (Create nm ty)
  assume "paths_ok s"
  then show ?thesis unfolding Create
    by (auto simp: step_proj paths_ok_def create_def Let_def log_operation_def update_stats_def
        set_obj_def update_conv' abs_path_child_path simp del: step.simps
        split: option.splits if_splits)
next
  case (Delete nm)
  assume "paths_ok s"
  then show ?thesis unfolding Delete
    by (auto simp: step_proj paths_ok_def delete_def Let_def log_operation_def update_stats_def
        set_obj_def delete_conv' simp del: step.simps split: option.splits if_splits)
next
  case (ChangeDirectory nm)
  assume "paths_ok s"
  then show ?thesis unfolding ChangeDirectory
    by (auto simp: step_proj paths_ok_def change_directory_def Let_def log_operation_def
        abs_path_parent_path simp del: step.simps split: option.splits if_splits)
next
  case (ReadFile nm)
  assume "paths_ok s"
  then show ?thesis unfolding ReadFile
    by (auto simp: step_proj paths_ok_def read_file_def Let_def log_operation_def
        simp del: step.simps split: option.splits if_splits)
next
  case (WriteFile nm c)
  assume "paths_ok s"
  then show ?thesis unfolding WriteFile
    by (auto simp: step_proj paths_ok_def write_file_def Let_def log_operation_def set_obj_def
        simp del: step.simps split: option.splits if_splits)
next
  case ListCurrentDirectory
  assume "paths_ok s"
  then show ?thesis unfolding ListCurrentDirectory
    by (auto simp: step_proj paths_ok_def get_current_items_def Let_def log_operation_def
        simp del: step.simps split: option.splits if_splits)
next
  case ClearCache
  assume "paths_ok s"
  then show ?thesis unfolding ClearCache
    by (auto simp: paths_ok_def clear_cache_def log_operation_def)
qed

lemma refs_ok_init: "refs_ok (VirtualFileSystem bc ty)"
  by (auto simp: VirtualFileSystem_eq refs_ok_def split: if_splits)

lemma inodes_ok_init: "inodes_ok (VirtualFileSystem bc ty)"
  by (simp add: VirtualFileSystem_eq inodes_ok_def upt_rec)

lemma paths_ok_init: "paths_ok (VirtualFileSystem bc ty)"
  by (auto simp: VirtualFileSystem_eq paths_ok_def abs_path_def split: if_splits)

lemma reachable_invariants:
  "reachable s \<Longrightarrow> refs_ok s \<and> inodes_ok s \<and> paths_ok s"
proof (induction rule: reachable.induct)
  case (init bc ty)
  show ?case by (simp add: refs_ok_init inodes_ok_init paths_ok_init)
next
  case (next_step s clk c)
  then show ?case by (simp add: refs_ok_step inodes_ok_step paths_ok_step)
qed

section \<open>Properties of the reachable states\<close>

lemma refs_okD:
  "refs_ok s \<Longrightarrow> map_of (filesystem s) p = Some r \<Longrightarrow> r < length (objects s)"
  by (simp add: refs_ok_def)

text \<open>
  Claim C4. In a reachable state, let \<open>f\<close> name an existing file in the current directory
  and let \<open>c\<close> be any string. \<open>WriteFile(f, c)\<close> succeeds, and the \<open>ReadFile(f)\<close> that
  follows returns the file's node, whose \<open>content\<close> equals \<open>c\<close> and whose \<open>size\<close> equals
  the length of \<open>c\<close>.
\<close>

theorem write_then_read_round_trip:
  assumes "reachable s"
    and "map_of (filesystem s) (child_path (current_path s) f) = Some r"
    and "item_type (get_obj s r) = FILE"
  shows "fst (write_file c1 f c s) = (True, ''File saved: '' @ f) \<and>
         fst (read_file c2 f (snd (write_file c1 f c s))) = Some r \<and>
         content (get_obj (snd (read_file c2 f (snd (write_file c1 f c s)))) r) = c \<and>
         size_f (get_obj (snd (read_file c2 f (snd (write_file c1 f c s)))) r) = int (length c)"
proof -
  from reachable_invariants[OF assms(1)] assms(2) have r: "r < length (objects s)"
    by (auto simp: refs_ok_def)
  let ?s1 = "snd (write_file c1 f c s)"
  have w: "fst (write_file c1 f c s) = (True, ''File saved: '' @ f)"
    and fs1: "filesystem ?s1 = filesystem s" "current_path ?s1 = current_path s"
    and o1: "get_obj ?s1 r = (get_obj s r)\<lparr>content := c, size_f := int (length c)\<rparr>"
    using assms(2,3) r
    by (simp_all add: write_file_def Let_def log_operation_def set_obj_def get_obj_def)
  have a1: "map_of (filesystem ?s1) (child_path (current_path ?s1) f) = Some r"
    and a2: "item_type (get_obj ?s1 r) = FILE"
    using assms(2,3) by (simp_all add: fs1 o1)
  have rd: "fst (read_file c2 f ?s1) = Some r"
    and o2: "get_obj (snd (read_file c2 f ?s1)) r = get_obj ?s1 r"
    by (simp_all add: read_file_existing[OF a1 a2] log_operation_def get_obj_def)
  from w rd show ?thesis by (simp add: o2 o1)
qed

text \<open>
  Claim C6. In a reachable state, every successful \<open>Create(name, kind)\<close> binds the joined
  path to a new node that has the requested name and kind and an \<open>inode\<close> strictly greater
  than the inode of every node allocated before (the object store keeps every node ever
  allocated, deleted ones included); afterwards no two nodes ever allocated share an inode.
\<close>

theorem create_assigns_fresh_id:
  assumes "reachable s"
    and "fst (create clk nm ty s) = Inr (True, msg)"
  shows "\<exists>r. map_of (filesystem (snd (create clk nm ty s))) (child_path (current_path s) nm) = Some r \<and>
             name (get_obj (snd (create clk nm ty s)) r) = nm \<and>
             item_type (get_obj (snd (create clk nm ty s)) r) = ty \<and>
             (\<forall>it \<in> set (objects s). inode it < inode (get_obj (snd (create clk nm ty s)) r)) \<and>
             distinct (map inode (objects (snd (create clk nm ty s))))"
proof -
  let ?s' = "snd (create clk nm ty s)"
  let ?r = "length (objects s)"
  from reachable_invariants[OF assms(1)] have io: "inodes_ok s" and ro: "refs_ok s"
    by simp_all
  have "reachable (snd (step clk (Create nm ty) s))" using assms(1) by (rule reachable.next_step)
  then have "reachable ?s'" by (simp add: step_proj del: step.simps)
  from reachable_invariants[OF this] have io': "inodes_ok ?s'" by simp
  then have d: "distinct (map inode (objects ?s'))"
    by (simp add: inodes_ok_def distinct_map inj_on_def)
  have lk: "map_of (filesystem ?s') (child_path (current_path s) nm) = Some ?r"
    and nm: "name (get_obj ?s' ?r) = nm"
    and ty: "item_type (get_obj ?s' ?r) = ty"
    and ino: "inode (get_obj ?s' ?r) = inode_counter s + 1"
    using assms(2)
    by (auto simp: create_def Let_def log_operation_def update_stats_def set_obj_def
        get_obj_def update_conv' nth_list_update nth_append
        dest: refs_okD[OF ro] split: option.splits if_splits)
  have "\<forall>it \<in> set (objects s). inode it \<le> inode_counter s"
  proof
    fix it assume "it \<in> set (objects s)"
    then have "inode it \<in> set (map inode (objects s))" by simp
    with io show "inode it \<le> inode_counter s" by (auto simp: inodes_ok_def)
  qed
  with lk nm ty ino d show ?thesis by auto
qed

text \<open>
  Claim C7, amended. In a reachable state whose \<open>current_path\<close> is not the root, resolves
  to a directory and has a leaf name \<open>L\<close> other than \<open>".."\<close>: \<open>ChangeDirectory("..")\<close>
  followed by \<open>ChangeDirectory(L)\<close> succeeds twice and restores \<open>current_path\<close>.
  (A directory may be named \<open>".."\<close>, and \<open>ChangeDirectory\<close> always reads that name as
  "go to the parent", so the claim needs the restriction on \<open>L\<close>.)
\<close>

theorem cd_parent_then_leaf_restores:
  assumes "reachable s"
    and "current_path s \<noteq> ''/''"
    and "map_of (filesystem s) (current_path s) = Some r"
    and "item_type (get_obj s r) = DIRECTORY"
    and "leaf_name (current_path s) \<noteq> ''..''"
  shows "fst (fst (change_directory c1 ''..'' s)) \<and>
         fst (fst (change_directory c2 (leaf_name (current_path s))
                     (snd (change_directory c1 ''..'' s)))) \<and>
         current_path (snd (change_directory c2 (leaf_name (current_path s))
                              (snd (change_directory c1 ''..'' s)))) = current_path s"
proof -
  from reachable_invariants[OF assms(1)] have ap: "abs_path (current_path s)"
    by (simp add: paths_ok_def)
  let ?s1 = "snd (change_directory c1 ''..'' s)"
  have up: "fst (fst (change_directory c1 ''..'' s))"
    and cp1: "current_path ?s1 = parent_path (current_path s)"
    and fs1: "filesystem ?s1 = filesystem s"
    and o1: "get_obj ?s1 r = get_obj s r"
    using assms(2)
    by (simp_all add: change_directory_def Let_def log_operation_def get_obj_def)
  have again: "child_path (current_path ?s1) (leaf_name (current_path s)) = current_path s"
    unfolding cp1 using ap assms(2) by (rule child_parent_leaf)
  from assms(3,4,5) again fs1 o1 show ?thesis
    by (simp add: up change_directory_def[of c2] Let_def log_operation_def)
qed

section \<open>Files not read yet and the inode cache\<close>

lemma inode_nth:
  assumes "inodes_ok s" "r < length (objects s)"
  shows "inode (get_obj s r) = int r + 1"
proof -
  from assms(1) have "map inode (objects s) ! r = map int [1..<Suc (length (objects s))] ! r"
    by (simp add: inodes_ok_def)
  with assms(2) show ?thesis by (simp add: get_obj_def nth_upt del: upt_Suc)
qed

lemma has_key_delete: "has_key (AList.delete k' al) k \<Longrightarrow> has_key al k"
  by (auto simp: has_key_def delete_conv' split: if_splits)

lemma step_cache_keys:
  assumes "refs_ok s" "has_key (inode_cache (snd (step clk c s))) k"
  shows "has_key (inode_cache s) k \<or>
         (\<exists>r'. fst (step clk c s) = Node (Some r') \<and> r' < length (objects s) \<and>
               k = inode (get_obj s r'))"
proof (cases c)
  case (Create nm ty)
  with assms(2) show ?thesis
    by (auto simp: step_proj create_def Let_def log_operation_def update_stats_def set_obj_def
        simp del: step.simps split: option.splits if_splits)
next
  case (Delete nm)
  with assms(2) show ?thesis
    by (auto simp: step_proj delete_def Let_def log_operation_def update_stats_def set_obj_def
        simp del: step.simps split: option.splits if_splits dest: has_key_delete)
next
  case (ChangeDirectory nm)
  with assms(2) show ?thesis
    by (auto simp: step_proj change_directory_def Let_def log_operation_def
        simp del: step.simps split: option.splits if_splits)
next
  case (ReadFile nm)
  with assms show ?thesis
    by (auto simp: step_proj read_file_def Let_def log_operation_def has_key_def update_conv'
        simp del: step.simps split: option.splits if_splits dest: refs_okD)
next
  case (WriteFile nm c)
  with assms(2) show ?thesis
    by (auto simp: step_proj write_file_def Let_def log_operation_def set_obj_def
        simp del: step.simps split: option.splits if_splits)
next
  case ListCurrentDirectory
  with assms(2) show ?thesis
    by (auto simp: step_proj get_current_items_def Let_def log_operation_def
        simp del: step.simps split: option.splits if_splits)
next
  case ClearCache
  with assms(2) show ?thesis
    by (auto simp: clear_cache_def log_operation_def has_key_def)
qed

lemma step_objects_length: "length (objects s) \<le> length (objects (snd (step clk c s)))"
proof (cases c)
  case (Create nm ty)
  then show ?thesis
    by (auto simp: step_proj create_def Let_def log_operation_def update_stats_def set_obj_def
        simp del: step.simps split: option.splits if_splits)
next
  case (Delete nm)
  then show ?thesis
    by (auto simp: step_proj delete_def Let_def log_operation_def update_stats_def set_obj_def
        simp del: step.simps split: option.splits if_splits)
next
  case (ChangeDirectory nm)
  then show ?thesis
    by (auto simp: step_proj change_directory_def Let_def log_operation_def
        simp del: step.simps split: option.splits if_splits)
next
  case (ReadFile nm)
  then show ?thesis
    by (auto simp: step_proj read_file_def Let_def log_operation_def
        simp del: step.simps split: option.splits if_splits)
next
  case (WriteFile nm c)
  then show ?thesis
    by (auto simp: step_proj write_file_def Let_def log_operation_def set_obj_def
        simp del: step.simps split: option.splits if_splits)
next
  case ListCurrentDirectory
  then show ?thesis
    by (auto simp: step_proj get_current_items_def Let_def log_operation_def
        simp del: step.simps split: option.splits if_splits)
next
  case ClearCache
  then show ?thesis by (simp add: clear_cache_def log_operation_def)
qed

lemma step_inode_counter: "inode_counter s \<le> inode_counter (snd (step clk c s))"
proof (cases c)
  case (Create nm ty)
  then show ?thesis
    by (auto simp: step_proj create_def Let_def log_operation_def update_stats_def set_obj_def
        simp del: step.simps split: option.splits if_splits)
next
  case (Delete nm)
  then show ?thesis
    by (auto simp: step_proj delete_def Let_def log_operation_def update_stats_def set_obj_def
        simp del: step.simps split: option.splits if_splits)
next
  case (ChangeDirectory nm)
  then show ?thesis
    by (auto simp: step_proj change_directory_def Let_def log_operation_def
        simp del: step.simps split: option.splits if_splits)
next
  case (ReadFile nm)
  then show ?thesis
    by (auto simp: step_proj read_file_def Let_def log_operation_def
        simp del: step.simps split: option.splits if_splits)
next
  case (WriteFile nm c)
  then show ?thesis
    by (auto simp: step_proj write_file_def Let_def log_operation_def set_obj_def
        simp del: step.simps split: option.splits if_splits)
next
  case ListCurrentDirectory
  then show ?thesis
    by (auto simp: step_proj get_current_items_def Let_def log_operation_def
        simp del: step.simps split: option.splits if_splits)
next
  case ClearCache
  then show ?thesis by (simp add: clear_cache_def log_operation_def)
qed

lemma cache_ok_step:
  assumes "refs_ok s" "inodes_ok s" "cache_ok s"
  shows "cache_ok (snd (step clk c s))"
  unfolding cache_ok_def
proof (intro allI impI)
  fix k r assume "map_of (inode_cache (snd (step clk c s))) k = Some r"
  then have "has_key (inode_cache (snd (step clk c s))) k" by (simp add: has_key_def)
  from step_cache_keys[OF assms(1) this]
  have "k \<le> inode_counter s"
  proof
    assume "has_key (inode_cache s) k"
    with assms(3) show ?thesis by (auto simp: cache_ok_def has_key_def)
  next
    assume "\<exists>r'. fst (step clk c s) = Node (Some r') \<and> r' < length (objects s) \<and>
               k = inode (get_obj s r')"
    then obtain r' where "r' < length (objects s)" "k = inode (get_obj s r')" by blast
    with inode_nth[OF assms(2), of r'] assms(2) show ?thesis by (simp add: inodes_ok_def)
  qed
  with step_inode_counter[of s clk c] show "k \<le> inode_counter (snd (step clk c s))" by simp
qed

lemma reachable_cache_ok: "reachable s \<Longrightarrow> cache_ok s"
proof (induction rule: reachable.induct)
  case (init bc ty)
  show ?case by (simp add: cache_ok_def VirtualFileSystem_eq)
next
  case (next_step s clk c)
  from reachable_invariants[OF next_step.hyps] next_step.IH show ?case
    by (simp add: cache_ok_step)
qed

lemma created_node:
  assumes "refs_ok s" "fst (create clk nm ty s) = Inr (True, msg)"
  shows "length (objects (snd (create clk nm ty s))) = Suc (length (objects s))"
    and "inode_cache (snd (create clk nm ty s)) = inode_cache s"
    and "inode (get_obj (snd (create clk nm ty s)) (length (objects s))) = inode_counter s + 1"
  using assms(2)
  by (auto simp: create_def Let_def log_operation_def update_stats_def set_obj_def
      get_obj_def update_conv' nth_list_update nth_append
      dest: refs_okD[OF assms(1)] split: option.splits if_splits)

lemma unread_not_cached:
  "unread s r \<Longrightarrow>
     reachable s \<and> r < length (objects s) \<and> \<not> has_key (inode_cache s) (inode (get_obj s r))"
proof (induction rule: unread.induct)
  case (constructed r bc ty)
  have "inode_cache (VirtualFileSystem bc ty) = []" by (simp add: VirtualFileSystem_eq)
  with constructed reachable.init[of bc ty] show ?case by (simp add: has_key_def)
next
  case (created s clk nm ty msg)
  from reachable_invariants[OF created(1)] have ro: "refs_ok s" by simp
  have "reachable (snd (step clk (Create nm ty) s))"
    using created(1) by (rule reachable.next_step)
  then have r': "reachable (snd (create clk nm ty s))" by (simp add: step_proj del: step.simps)
  have "\<not> has_key (inode_cache s) (inode_counter s + 1)"
    using reachable_cache_ok[OF created(1)] by (fastforce simp: cache_ok_def has_key_def)
  with r' created_node[OF ro created(2)] show ?case by simp
next
  case (cleared s r clk)
  have "reachable (snd (step clk ClearCache s))" using cleared(1) by (rule reachable.next_step)
  with cleared(2) show ?case by (simp add: clear_cache_def log_operation_def has_key_def)
next
  case (kept s r clk c)
  then have rs: "reachable s" and rl: "r < length (objects s)"
    and nc: "\<not> has_key (inode_cache s) (inode (get_obj s r))" by simp_all
  let ?s' = "snd (step clk c s)"
  have rs': "reachable ?s'" using rs by (rule reachable.next_step)
  from step_objects_length[of s clk c] rl have rl': "r < length (objects ?s')" by simp
  from reachable_invariants[OF rs] have ro: "refs_ok s" and io: "inodes_ok s" by simp_all
  from reachable_invariants[OF rs'] have io': "inodes_ok ?s'" by simp
  have same: "inode (get_obj ?s' r) = inode (get_obj s r)"
    by (simp add: inode_nth[OF io rl] inode_nth[OF io' rl'])
  have "\<not> has_key (inode_cache ?s') (inode (get_obj s r))"
  proof
    assume "has_key (inode_cache ?s') (inode (get_obj s r))"
    from step_cache_keys[OF ro this] nc
    obtain r' where r': "fst (step clk c s) = Node (Some r')" "r' < length (objects s)"
      "inode (get_obj s r) = inode (get_obj s r')" by blast
    from r'(3) have "r' = r" by (simp add: inode_nth[OF io rl] inode_nth[OF io r'(2)])
    with r'(1) kept.hyps(2) show False by simp
  qed
  with rs' rl' same show ?case by simp
qed

text \<open>
  Claim C3. Let \<open>f\<close> name an existing file in the current directory. A first \<open>ReadFile(f)\<close>
  (the file's node has not been returned by a \<open>ReadFile\<close> since the store was constructed,
  since the file was created, or since the last \<open>ClearCache\<close>) returns the node, increments
  \<open>cache_misses\<close> by one and leaves \<open>cache_hits\<close> unchanged; an immediately following
  second \<open>ReadFile(f)\<close> increments \<open>cache_hits\<close> by one and leaves \<open>cache_misses\<close>
  unchanged; and after a \<open>ClearCache\<close> call the next \<open>ReadFile(f)\<close> again increments
  \<open>cache_misses\<close> by one (\<open>cache_hits\<close> unchanged).
\<close>

theorem read_file_hit_miss_counters:
  assumes "map_of (filesystem s) (child_path (current_path s) f) = Some r"
    and "item_type (get_obj s r) = FILE"
  shows "(unread s r \<longrightarrow>
            fst (read_file c1 f s) = Some r \<and>
            cache_misses (stats (snd (read_file c1 f s))) = cache_misses (stats s) + 1 \<and>
            cache_hits (stats (snd (read_file c1 f s))) = cache_hits (stats s)) \<and>
         fst (read_file c1 f s) = Some r \<and>
         fst (read_file c2 f (snd (read_file c1 f s))) = Some r \<and>
         cache_hits (stats (snd (read_file c2 f (snd (read_file c1 f s))))) =
           cache_hits (stats (snd (read_file c1 f s))) + 1 \<and>
         cache_misses (stats (snd (read_file c2 f (snd (read_file c1 f s))))) =
           cache_misses (stats (snd (read_file c1 f s))) \<and>
         fst (read_file c4 f (clear_cache c3 s)) = Some r \<and>
         cache_misses (stats (snd (read_file c4 f (clear_cache c3 s)))) =
           cache_misses (stats (clear_cache c3 s)) + 1 \<and>
         cache_hits (stats (snd (read_file c4 f (clear_cache c3 s)))) =
           cache_hits (stats (clear_cache c3 s))"
  using read_file_counters_by_cache[OF assms, of c1 c2 c4 c3] unread_not_cached[of s r]
  by blast

section \<open>Concrete runs from the seeded state\<close>

lemma exec_Nil: "exec [] s = s"
  by (simp add: exec_def)

lemma exec_Cons: "exec (c # cs) s = exec cs (snd (step clock0 c s))"
  by (simp add: exec_def snd_run_Cons del: run.simps)

lemma reachable_exec: "reachable s \<Longrightarrow> reachable (exec cs s)"
  by (induction cs arbitrary: s)
     (simp_all add: exec_Nil exec_Cons reachable.next_step del: step.simps)

lemma reachable_seed: "reachable seed"
  unfolding seed_def by (rule reachable.init)

lemmas eval_simps =
  exec_Nil exec_Cons step_proj seed_def VirtualFileSystem_eq
  create_def delete_def change_directory_def read_file_def write_file_def
  get_current_items_def clear_cache_def log_operation_def update_stats_def count_type_def
  set_obj_def get_obj_def has_key_def child_path_def parent_path_def leaf_name_def Let_def

lemma seed_eval:
  "current_path seed = ''/'' \<and>
   map_of (filesystem seed) (child_path (current_path seed) ''no-such-dir'') = None \<and>
   map_of (filesystem seed) (child_path (current_path seed) ''home'') = Some 1 \<and>
   item_type (get_obj seed 1) = DIRECTORY \<and>
   children (get_obj seed 1) \<noteq> [] \<and>
   fst (create clock0 ''notes.txt'' FILE seed) = Inr (True, ''Created file: notes.txt'')"
  by (simp add: eval_simps cong: let_weak_cong)

lemma in_etc_eval:
  "let s = exec [ChangeDirectory ''etc''] seed
   in map_of (filesystem s) (child_path (current_path s) ''config.txt'') = Some 7 \<and>
      item_type (get_obj s 7) = FILE \<and>
      \<not> has_key (inode_cache s) (inode (get_obj s 7))"
  by (simp add: eval_simps del: step.simps cong: let_weak_cong)

lemma in_home_eval:
  "let s = exec [ChangeDirectory ''home''] seed
   in current_path s \<noteq> ''/'' \<and>
      map_of (filesystem s) (current_path s) = Some 1 \<and>
      item_type (get_obj s 1) = DIRECTORY \<and>
      leaf_name (current_path s) \<noteq> ''..''"
  by (simp add: eval_simps del: step.simps cong: let_weak_cong)

lemma empty_the_root_eval:
  "let s = exec empty_the_root seed
   in current_path s = ''/'' \<and> filesystem s = [(''/'', 0)] \<and>
      item_type (get_obj s 0) = DIRECTORY \<and> children (get_obj s 0) = [] \<and>
      fst (step clock0 (Delete '''') s) = Raised KeyError \<and>
      map_of (filesystem (snd (step clock0 (Delete '''') s))) ''/'' = None"
  by (simp add: eval_simps empty_the_root_def del: step.simps cong: let_weak_cong)

lemma enter_dotdot_eval:
  "let s = exec enter_dotdot seed
   in current_path s = ''/a/..'' \<and>
      current_path s \<noteq> ''/'' \<and>
      map_of (filesystem s) (current_path s) = Some 12 \<and>
      item_type (get_obj s 12) = DIRECTORY \<and>
      leaf_name (current_path s) = ''..'' \<and>
      fst (change_directory clock0 ''..'' s) = (True, ''Changed to /a'') \<and>
      fst (change_directory clock0 (leaf_name (current_path s))
             (snd (change_directory clock0 ''..'' s))) = (True, ''Changed to /'') \<and>
      current_path (snd (change_directory clock0 (leaf_name (current_path s))
             (snd (change_directory clock0 ''..'' s)))) \<noteq> current_path s"
  by (simp add: eval_simps enter_dotdot_def del: step.simps cong: let_weak_cong)

text \<open>
  Claim C1, at failing inputs. On the seeded state, a \<open>ChangeDirectory\<close> to a missing
  directory, a \<open>Create\<close> with an empty name and a \<open>ReadFile\<close> of a missing file all fail
  and append nothing to the journal, and \<open>operations\<close> keeps its value; the failing
  \<open>Delete\<close> of a missing item, by contrast, appends one record and counts one operation.
\<close>

theorem failed_calls_not_journaled:
  "fst (step clock0 (ChangeDirectory ''no-such-dir'') seed) = Status False ''Directory not found!'' \<and>
   length (operation_log (snd (step clock0 (ChangeDirectory ''no-such-dir'') seed))) =
     length (operation_log seed) \<and>
   operations (stats (snd (step clock0 (ChangeDirectory ''no-such-dir'') seed))) =
     operations (stats seed) \<and>
   fst (step clock0 (Create '''' FILE) seed) = Status False ''Invalid name!'' \<and>
   length (operation_log (snd (step clock0 (Create '''' FILE) seed))) =
     length (operation_log seed) \<and>
   operations (stats (snd (step clock0 (Create '''' FILE) seed))) = operations (stats seed) \<and>
   fst (step clock0 (ReadFile ''no-such-file'') seed) = Node None \<and>
   length (operation_log (snd (step clock0 (ReadFile ''no-such-file'') seed))) =
     length (operation_log seed) \<and>
   operations (stats (snd (step clock0 (ReadFile ''no-such-file'') seed))) =
     operations (stats seed) \<and>
   fst (step clock0 (Delete ''no-such-item'') seed) = Status False ''Item not found!'' \<and>
   length (operation_log (snd (step clock0 (Delete ''no-such-item'') seed))) =
     length (operation_log seed) + 1 \<and>
   operations (stats (snd (step clock0 (Delete ''no-such-item'') seed))) =
     operations (stats seed) + 1"
  by (simp add: eval_simps del: step.simps cong: let_weak_cong)

text \<open>
  Claim C2, at a failing input. After the calls of \<open>empty_the_root\<close> on the seeded state the
  root is an empty directory and the current directory. \<open>Delete("")\<close> then resolves the
  path \<open>/\<close>, removes the root entry from \<open>filesystem\<close> and raises \<open>KeyError\<close> on the
  lookup of the current directory that follows: the store has no node at \<open>/\<close> any more.
\<close>

theorem delete_empty_name_removes_root:
  "current_path (exec empty_the_root seed) = ''/'' \<and>
   filesystem (exec empty_the_root seed) = [(''/'', 0)] \<and>
   item_type (get_obj (exec empty_the_root seed) 0) = DIRECTORY \<and>
   children (get_obj (exec empty_the_root seed) 0) = [] \<and>
   fst (step clock0 (Delete '''') (exec empty_the_root seed)) = Raised KeyError \<and>
   map_of (filesystem (snd (step clock0 (Delete '''') (exec empty_the_root seed)))) ''/'' = None"
  using empty_the_root_eval unfolding Let_def .

text \<open>
  Claim C7 as stated fails: after the calls of \<open>enter_dotdot\<close> the current directory is
  \<open>/a/..\<close>, a non-root directory whose leaf name is \<open>..\<close>; \<open>ChangeDirectory("..")\<close>
  followed by \<open>ChangeDirectory\<close> of that leaf name succeeds twice and ends in \<open>/\<close>.
\<close>

theorem cd_parent_then_leaf_counterexample:
  "current_path (exec enter_dotdot seed) = ''/a/..'' \<and>
   current_path (exec enter_dotdot seed) \<noteq> ''/'' \<and>
   map_of (filesystem (exec enter_dotdot seed)) (current_path (exec enter_dotdot seed)) = Some 12 \<and>
   item_type (get_obj (exec enter_dotdot seed) 12) = DIRECTORY \<and>
   leaf_name (current_path (exec enter_dotdot seed)) = ''..'' \<and>
   fst (change_directory clock0 ''..'' (exec enter_dotdot seed)) = (True, ''Changed to /a'') \<and>
   fst (change_directory clock0 (leaf_name (current_path (exec enter_dotdot seed)))
          (snd (change_directory clock0 ''..'' (exec enter_dotdot seed)))) =
     (True, ''Changed to /'') \<and>
   current_path (snd (change_directory clock0 (leaf_name (current_path (exec enter_dotdot seed)))
          (snd (change_directory clock0 ''..'' (exec enter_dotdot seed))))) \<noteq>
     current_path (exec enter_dotdot seed)"
  using enter_dotdot_eval unfolding Let_def .

text \<open>
  Claim C10. \<open>Create\<close> rejects a name that is empty or contains \<open>/\<close>; \<open>Delete\<close>,
  \<open>ChangeDirectory\<close>, \<open>ReadFile\<close> and \<open>WriteFile\<close> do not validate the name. On the seeded
  state (current directory \<open>/\<close>): \<open>ChangeDirectory("home/user")\<close> enters the nested
  directory; \<open>ReadFile("home/user/readme.txt")\<close> returns the nested file;
  \<open>WriteFile("etc/config.txt", "x")\<close> rewrites the nested file; \<open>Delete("home/user")\<close>
  resolves the nested directory (and refuses it as not empty), and
  \<open>Delete("home/user/documents")\<close> removes the nested entry from \<open>filesystem\<close> (and then
  raises \<open>ValueError\<close>, the name not being a child of the current directory). With the
  empty name the four operations resolve the path \<open>/\<close> itself: \<open>ChangeDirectory("")\<close>
  succeeds on the root, \<open>WriteFile("", c)\<close> answers "Not a file!", \<open>Delete("")\<close> answers
  "Cannot delete non-empty directory!", \<open>ReadFile("")\<close> finds the root, a directory, and
  returns nothing.
\<close>

theorem unvalidated_names_resolve_paths:
  "fst (create clock0 ''home/x'' FILE seed) = Inr (False, ''Invalid name!'') \<and>
   fst (create clock0 '''' FILE seed) = Inr (False, ''Invalid name!'') \<and>
   fst (change_directory clock0 ''home/user'' seed) = (True, ''Changed to /home/user'') \<and>
   current_path (snd (change_directory clock0 ''home/user'' seed)) = ''/home/user'' \<and>
   fst (read_file clock0 ''home/user/readme.txt'' seed) = Some 5 \<and>
   name (get_obj seed 5) = ''readme.txt'' \<and>
   fst (write_file clock0 ''etc/config.txt'' ''x'' seed) = (True, ''File saved: etc/config.txt'') \<and>
   name (get_obj seed 7) = ''config.txt'' \<and>
   content (get_obj (snd (write_file clock0 ''etc/config.txt'' ''x'' seed)) 7) = ''x'' \<and>
   fst (delete clock0 ''home/user'' seed) = Inr (False, ''Cannot delete non-empty directory!'') \<and>
   map_of (filesystem seed) ''/home/user/documents'' = Some 3 \<and>
   fst (delete clock0 ''home/user/documents'' seed) = Inl ValueError \<and>
   map_of (filesystem (snd (delete clock0 ''home/user/documents'' seed))) ''/home/user/documents'' = None \<and>
   child_path (current_path seed) '''' = ''/'' \<and>
   fst (change_directory clock0 '''' seed) = (True, ''Changed to /'') \<and>
   fst (write_file clock0 '''' ''x'' seed) = (False, ''Not a file!'') \<and>
   fst (delete clock0 '''' seed) = Inr (False, ''Cannot delete non-empty directory!'') \<and>
   map_of (filesystem seed) ''/'' = Some 0 \<and> item_type (get_obj seed 0) = DIRECTORY \<and>
   fst (read_file clock0 '''' seed) = None"
  by (simp add: eval_simps cong: let_weak_cong)

section \<open>Witnesses\<close>

theorem read_file_hit_miss_counters_witness:
  "map_of (filesystem in_etc) (child_path (current_path in_etc) ''config.txt'') = Some 7 \<and>
   item_type (get_obj in_etc 7) = FILE \<and>
   unread in_etc 7 \<and>
   fst (read_file clock0 ''config.txt'' in_etc) = Some 7 \<and>
   cache_misses (stats (snd (read_file clock0 ''config.txt'' in_etc))) =
     cache_misses (stats in_etc) + 1 \<and>
   cache_hits (stats (snd (read_file clock0 ''config.txt'' in_etc))) = cache_hits (stats in_etc) \<and>
   cache_hits (stats (snd (read_file clock0 ''config.txt''
       (snd (read_file clock0 ''config.txt'' in_etc))))) =
     cache_hits (stats (snd (read_file clock0 ''config.txt'' in_etc))) + 1 \<and>
   cache_misses (stats (snd (read_file clock0 ''config.txt''
       (snd (read_file clock0 ''config.txt'' in_etc))))) =
     cache_misses (stats (snd (read_file clock0 ''config.txt'' in_etc))) \<and>
   cache_misses (stats (snd (read_file clock0 ''config.txt'' (clear_cache clock0 in_etc)))) =
     cache_misses (stats (clear_cache clock0 in_etc)) + 1 \<and>
   cache_hits (stats (snd (read_file clock0 ''config.txt'' (clear_cache clock0 in_etc)))) =
     cache_hits (stats (clear_cache clock0 in_etc))"
proof -
  from in_etc_eval
  have h1: "map_of (filesystem in_etc) (child_path (current_path in_etc) ''config.txt'') = Some 7"
    and h2: "item_type (get_obj in_etc 7) = FILE"
    unfolding Let_def in_etc_def by blast+
  have u0: "unread seed 7"
    unfolding seed_def by (rule unread.constructed) (simp add: VirtualFileSystem_eq)
  have ne: "fst (step clock0 (ChangeDirectory ''etc'') seed) \<noteq> Node (Some 7)"
    by (simp add: step_proj del: step.simps)
  have "in_etc = snd (step clock0 (ChangeDirectory ''etc'') seed)"
    by (simp add: in_etc_def exec_Cons exec_Nil del: step.simps)
  with unread.kept[OF u0 ne] have u: "unread in_etc 7" by simp
  from read_file_hit_miss_counters[OF h1 h2, of clock0 clock0 clock0 clock0] h1 h2 u
  show ?thesis by blast
qed

theorem write_then_read_round_trip_witness:
  "reachable in_etc \<and>
   map_of (filesystem in_etc) (child_path (current_path in_etc) ''config.txt'') = Some 7 \<and>
   item_type (get_obj in_etc 7) = FILE \<and>
   fst (write_file clock0 ''config.txt'' ''hello'' in_etc) = (True, ''File saved: config.txt'') \<and>
   fst (read_file clock0 ''config.txt'' (snd (write_file clock0 ''config.txt'' ''hello'' in_etc))) =
     Some 7 \<and>
   content (get_obj (snd (read_file clock0 ''config.txt''
       (snd (write_file clock0 ''config.txt'' ''hello'' in_etc)))) 7) = ''hello'' \<and>
   size_f (get_obj (snd (read_file clock0 ''config.txt''
       (snd (write_file clock0 ''config.txt'' ''hello'' in_etc)))) 7) = 5"
proof -
  have r: "reachable in_etc"
    unfolding in_etc_def by (rule reachable_exec[OF reachable_seed])
  from in_etc_eval
  have h1: "map_of (filesystem in_etc) (child_path (current_path in_etc) ''config.txt'') = Some 7"
    and h2: "item_type (get_obj in_etc 7) = FILE"
    unfolding Let_def in_etc_def by blast+
  from write_then_read_round_trip[OF r h1 h2, of clock0 "''hello''" clock0] r h1 h2
  show ?thesis by simp
qed

theorem change_directory_failure_frame_witness:
  "(''no-such-dir'' \<noteq> ''..'' \<and>
    map_of (filesystem seed) (child_path (current_path seed) ''no-such-dir'') = None \<and>
    fst (change_directory clock0 ''no-such-dir'' seed) = (False, ''Directory not found!'') \<and>
    current_path (snd (change_directory clock0 ''no-such-dir'' seed)) = current_path seed \<and>
    filesystem (snd (change_directory clock0 ''no-such-dir'' seed)) = filesystem seed \<and>
    objects (snd (change_directory clock0 ''no-such-dir'' seed)) = objects seed \<and>
    dentry_cache (snd (change_directory clock0 ''no-such-dir'' seed)) = dentry_cache seed \<and>
    inode_cache (snd (change_directory clock0 ''no-such-dir'' seed)) = inode_cache seed) \<and>
   (''config.txt'' \<noteq> ''..'' \<and>
    map_of (filesystem in_etc) (child_path (current_path in_etc) ''config.txt'') = Some 7 \<and>
    item_type (get_obj in_etc 7) = FILE \<and>
    fst (change_directory clock0 ''config.txt'' in_etc) = (False, ''Not a directory!'') \<and>
    current_path (snd (change_directory clock0 ''config.txt'' in_etc)) = current_path in_etc) \<and>
   (current_path seed = ''/'' \<and>
    fst (change_directory clock0 ''..'' seed) = (False, ''Already at root'') \<and>
    current_path (snd (change_directory clock0 ''..'' seed)) = current_path seed)"
proof -
  from seed_eval
  have a1: "map_of (filesystem seed) (child_path (current_path seed) ''no-such-dir'') = None"
    and a2: "current_path seed = ''/''"
    by blast+
  from in_etc_eval
  have b1: "map_of (filesystem in_etc) (child_path (current_path in_etc) ''config.txt'') = Some 7"
    and b2: "item_type (get_obj in_etc 7) = FILE"
    unfolding Let_def in_etc_def by blast+
  have n1: "''no-such-dir'' \<noteq> ''..''" and n2: "''config.txt'' \<noteq> ''..''" by simp_all
  from change_directory_failure_frame[of "''no-such-dir''" seed clock0] a1 n1
  have c1: "fst (change_directory clock0 ''no-such-dir'' seed) = (False, ''Directory not found!'')"
    by blast
  from change_directory_failure_frame[of "''config.txt''" in_etc clock0] b1 b2 n2
  have c2: "fst (change_directory clock0 ''config.txt'' in_etc) = (False, ''Not a directory!'')"
    by blast
  from change_directory_failure_frame[of "''..''" seed clock0] a2
  have c3: "fst (change_directory clock0 ''..'' seed) = (False, ''Already at root'')"
    by blast
  from c1 change_directory_failure_frame[of "''no-such-dir''" seed clock0]
  have f1: "current_path (snd (change_directory clock0 ''no-such-dir'' seed)) = current_path seed \<and>
    filesystem (snd (change_directory clock0 ''no-such-dir'' seed)) = filesystem seed \<and>
    objects (snd (change_directory clock0 ''no-such-dir'' seed)) = objects seed \<and>
    dentry_cache (snd (change_directory clock0 ''no-such-dir'' seed)) = dentry_cache seed \<and>
    inode_cache (snd (change_directory clock0 ''no-such-dir'' seed)) = inode_cache seed"
    by simp
  from c2 change_directory_failure_frame[of "''config.txt''" in_etc clock0]
  have f2: "current_path (snd (change_directory clock0 ''config.txt'' in_etc)) = current_path in_etc"
    by simp
  from c3 change_directory_failure_frame[of "''..''" seed clock0]
  have f3: "current_path (snd (change_directory clock0 ''..'' seed)) = current_path seed"
    by simp
  from a1 a2 b1 b2 n1 n2 c1 c2 c3 f1 f2 f3 show ?thesis by blast
qed

theorem create_assigns_fresh_id_witness:
  "reachable seed \<and>
   fst (create clock0 ''notes.txt'' FILE seed) = Inr (True, ''Created file: notes.txt'') \<and>
   (\<exists>r. map_of (filesystem (snd (create clock0 ''notes.txt'' FILE seed)))
            (child_path (current_path seed) ''notes.txt'') = Some r \<and>
        name (get_obj (snd (create clock0 ''notes.txt'' FILE seed)) r) = ''notes.txt'' \<and>
        item_type (get_obj (snd (create clock0 ''notes.txt'' FILE seed)) r) = FILE \<and>
        (\<forall>it \<in> set (objects seed).
           inode it < inode (get_obj (snd (create clock0 ''notes.txt'' FILE seed)) r)) \<and>
        distinct (map inode (objects (snd (create clock0 ''notes.txt'' FILE seed)))))"
proof -
  from seed_eval
  have h: "fst (create clock0 ''notes.txt'' FILE seed) = Inr (True, ''Created file: notes.txt'')"
    by blast
  from create_assigns_fresh_id[OF reachable_seed h] reachable_seed h
  show ?thesis by blast
qed

theorem cd_parent_then_leaf_restores_witness:
  "reachable in_home \<and>
   current_path in_home \<noteq> ''/'' \<and>
   map_of (filesystem in_home) (current_path in_home) = Some 1 \<and>
   item_type (get_obj in_home 1) = DIRECTORY \<and>
   leaf_name (current_path in_home) \<noteq> ''..'' \<and>
   fst (fst (change_directory clock0 ''..'' in_home)) \<and>
   fst (fst (change_directory clock0 (leaf_name (current_path in_home))
               (snd (change_directory clock0 ''..'' in_home)))) \<and>
   current_path (snd (change_directory clock0 (leaf_name (current_path in_home))
                        (snd (change_directory clock0 ''..'' in_home)))) = current_path in_home"
proof -
  have r: "reachable in_home"
    unfolding in_home_def by (rule reachable_exec[OF reachable_seed])
  from in_home_eval
  have h1: "current_path in_home \<noteq> ''/''"
    and h2: "map_of (filesystem in_home) (current_path in_home) = Some 1"
    and h3: "item_type (get_obj in_home 1) = DIRECTORY"
    and h4: "leaf_name (current_path in_home) \<noteq> ''..''"
    unfolding Let_def in_home_def by blast+
  from cd_parent_then_leaf_restores[OF r h1 h2 h3 h4, of clock0 clock0] r h1 h2 h3 h4
  show ?thesis by blast
qed

theorem delete_non_empty_directory_witness:
  "map_of (filesystem seed) (child_path (current_path seed) ''home'') = Some 1 \<and>
   item_type (get_obj seed 1) = DIRECTORY \<and>
   children (get_obj seed 1) \<noteq> [] \<and>
   fst (delete clock0 ''home'' seed) = Inr (False, ''Cannot delete non-empty directory!'') \<and>
   filesystem (snd (delete clock0 ''home'' seed)) = filesystem seed \<and>
   objects (snd (delete clock0 ''home'' seed)) = objects seed"
proof -
  from seed_eval
  have h1: "map_of (filesystem seed) (child_path (current_path seed) ''home'') = Some 1"
    and h2: "item_type (get_obj seed 1) = DIRECTORY"
    and h3: "children (get_obj seed 1) \<noteq> []"
    by blast+
  from delete_non_empty_directory[OF h1 h2 h3, of clock0] h1 h2 h3
  show ?thesis by blast
qed

theorem caches_never_influence_results_witness:
  "same_but_caches seed (warm_caches seed) \<and>
   fst (run [(clock0, ChangeDirectory ''etc''), (clock0, ReadFile ''config.txt'')] seed) =
     fst (run [(clock0, ChangeDirectory ''etc''), (clock0, ReadFile ''config.txt'')]
            (warm_caches seed)) \<and>
   same_but_caches
     (snd (run [(clock0, ChangeDirectory ''etc''), (clock0, ReadFile ''config.txt'')] seed))
     (snd (run [(clock0, ChangeDirectory ''etc''), (clock0, ReadFile ''config.txt'')]
            (warm_caches seed)))"
proof -
  have h: "same_but_caches seed (warm_caches seed)"
    by (simp add: same_but_caches_def warm_caches_def)
  from caches_never_influence_results[OF h] h show ?thesis by blast
qed

end
